theory Spec2Isabelle
  imports Complex_Main "HOL-Library.Log_Nat" "HOL-Library.Word"
begin

section \<open>The C++ type \<open>float\<close>\<close>

text \<open>
  A \<open>float\<close> is an IEEE 754 binary32 value: a NaN, one of the two infinities, or a
  finite number. Every finite binary32 value is a rational, so the finite values are
  carried by \<open>rat\<close>; which rationals are binary32 values is said by \<open>is_float\<close> below.
  The sign of a zero is not kept: the program never looks at it (\<open>==\<close>, \<open>!=\<close>,
  \<open><=\<close> and \<open>>\<close> do not tell \<open>-0.0f\<close> from \<open>0.0f\<close>, and no zero is ever written out).
\<close>

datatype float = NaN | PInf | NInf | Fin rat

text \<open>The comparison operators of C++ on \<open>float\<close>: every ordered comparison with a
  NaN is false, \<open>==\<close> with a NaN is false, \<open>!=\<close> with a NaN is true.\<close>

fun float_lt :: "float \<Rightarrow> float \<Rightarrow> bool" where
  "float_lt NaN b = False"
| "float_lt a NaN = False"
| "float_lt PInf b = False"
| "float_lt a NInf = False"
| "float_lt NInf b = True"
| "float_lt a PInf = True"
| "float_lt (Fin x) (Fin y) = (x < y)"

definition float_gt :: "float \<Rightarrow> float \<Rightarrow> bool" where
  "float_gt a b = float_lt b a"

definition float_eq :: "float \<Rightarrow> float \<Rightarrow> bool" where
  "float_eq a b = (a \<noteq> NaN \<and> b \<noteq> NaN \<and> a = b)"

definition float_ne :: "float \<Rightarrow> float \<Rightarrow> bool" where
  "float_ne a b = (\<not> float_eq a b)"

definition float_le :: "float \<Rightarrow> float \<Rightarrow> bool" where
  "float_le a b = (float_lt a b \<or> float_eq a b)"

subsection \<open>Rounding to binary32\<close>

text \<open>
  Arithmetic and the conversion of text produce the binary32 value nearest to the exact
  result, ties to the value with an even significand (the default rounding of IEEE 754).
  A binary32 value has 24 significant bits and an exponent of at least \<open>-126\<close>;
  a result that rounds to \<open>2 ^ 128\<close> or more is an infinity.
\<close>

definition round_half_even :: "rat \<Rightarrow> int" where
  "round_half_even x =
     (let f = \<lfloor>x\<rfloor>; d = x - of_int f
      in if d < 1 / 2 then f
         else if 1 / 2 < d then f + 1
         else if even f then f else f + 1)"

text \<open>For \<open>0 < x\<close>, the exponent \<open>e\<close> with \<open>2 ^ e \<le> x < 2 ^ (e + 1)\<close>.\<close>

definition ilog2 :: "rat \<Rightarrow> int" where
  "ilog2 x = (if 1 \<le> x then bitlen \<lfloor>x\<rfloor> - 1 else - bitlen (\<lceil>1 / x\<rceil> - 1))"

text \<open>For \<open>0 < x\<close>, the nearest binary32 magnitude, \<open>None\<close> when it overflows.\<close>

definition round_magnitude :: "rat \<Rightarrow> rat option" where
  "round_magnitude x =
     (let e = max (ilog2 x) (- 126);
          ulp = 2 powi (e - 23);
          y = of_int (round_half_even (x / ulp)) * ulp
      in if 2 ^ 128 \<le> y then None else Some y)"

definition to_float :: "rat \<Rightarrow> float" where
  "to_float x =
     (if x = 0 then Fin 0
      else if 0 < x then (case round_magnitude x of None \<Rightarrow> PInf | Some y \<Rightarrow> Fin y)
      else (case round_magnitude (- x) of None \<Rightarrow> NInf | Some y \<Rightarrow> Fin (- y)))"

text \<open>The values a variable of type \<open>float\<close> can hold: rounding leaves them as they are.\<close>

fun is_float :: "float \<Rightarrow> bool" where
  "is_float (Fin x) = (to_float x = Fin x)"
| "is_float v = True"

text \<open>The operator \<open>*\<close> on \<open>float\<close>.\<close>

fun float_mul :: "float \<Rightarrow> float \<Rightarrow> float" where
  "float_mul NaN b = NaN"
| "float_mul a NaN = NaN"
| "float_mul (Fin x) (Fin y) = to_float (x * y)"
| "float_mul a b =
     (if float_eq a (Fin 0) \<or> float_eq b (Fin 0) then NaN
      else if float_lt a (Fin 0) = float_lt b (Fin 0) then PInf else NInf)"

section \<open>The value type \<open>ScaleConfig\<close> (ImGuiScaling.hpp)\<close>

record ScaleConfig =
  dpiScale :: float
  userScale :: float

text \<open>A default-constructed \<open>ScaleConfig\<close>: the default member initialisers.\<close>

definition ScaleConfig_default :: ScaleConfig where
  "ScaleConfig_default = \<lparr>dpiScale = Fin 1, userScale = Fin 1\<rparr>"

definition GetEffectiveScale :: "ScaleConfig \<Rightarrow> float" where
  "GetEffectiveScale c = float_mul (dpiScale c) (userScale c)"

definition FromEffective :: "float \<Rightarrow> ScaleConfig" where
  "FromEffective effective = ScaleConfig_default\<lparr>dpiScale := Fin 1, userScale := effective\<rparr>"

definition Create :: "float \<Rightarrow> float \<Rightarrow> ScaleConfig" where
  "Create dpi user = ScaleConfig_default\<lparr>dpiScale := dpi, userScale := user\<rparr>"

section \<open>The mixin \<open>Scalable\<close> (ImGuiScaling.hpp)\<close>

text \<open>
  The two private members of the class, with their default member initialisers, and a
  counter of the calls of the virtual hook \<open>OnScaleChanged\<close>. The hook's body in
  \<open>Scalable\<close> is empty; the counter records that it was called, so that "the hook is
  invoked" can be said of a state.
\<close>

record Scalable =
  m_scale :: float
  m_prevScale :: float
  hook_calls :: nat

definition Scalable_init :: Scalable where
  "Scalable_init = \<lparr>m_scale = Fin 1, m_prevScale = Fin 1, hook_calls = 0\<rparr>"

definition OnScaleChanged :: "Scalable \<Rightarrow> Scalable" where
  "OnScaleChanged s = s\<lparr>hook_calls := Suc (hook_calls s)\<rparr>"

definition SetScale :: "float \<Rightarrow> Scalable \<Rightarrow> Scalable" where
  "SetScale scale s =
     (if float_gt scale (Fin 0) \<and> float_ne scale (m_scale s)
      then OnScaleChanged (s\<lparr>m_prevScale := m_scale s, m_scale := scale\<rparr>)
      else s)"

definition GetScale :: "Scalable \<Rightarrow> float" where
  "GetScale s = m_scale s"

definition HasScaleChanged :: "Scalable \<Rightarrow> bool" where
  "HasScaleChanged s = float_ne (m_scale s) (m_prevScale s)"

definition AcknowledgeScaleChange :: "Scalable \<Rightarrow> Scalable" where
  "AcknowledgeScaleChange s = s\<lparr>m_prevScale := m_scale s\<rparr>"

section \<open>The C library: \<open>strcmp\<close>, \<open>sscanf\<close> and \<open>printf\<close> formatting\<close>

text \<open>
  A C string is the list of its characters before the terminating NUL. The functions
  below are the parts of the C library that ImGuiScaling.cpp calls, in the "C" locale:
  \<open>strcmp\<close> and the conversion \<open>%.3f\<close> after ISO C, and \<open>sscanf\<close> as the GNU C
  library implements it. The library departs from the standard's wording where the text
  of a number breaks off early: \<open>sscanf\<close> collects the characters that can belong to a
  number and converts the longest number at the head of what it has collected, as
  \<open>strtof\<close> does, so that an exponent marker with no digit after it is left out and the
  digits before it are converted.
\<close>

text \<open>\<open>strcmp\<close>: the difference of the first two characters that differ, as
  \<open>unsigned char\<close>; the end of a string counts as the character 0.\<close>

fun strcmp :: "string \<Rightarrow> string \<Rightarrow> int" where
  "strcmp [] [] = 0"
| "strcmp [] (d # ds) = - int (of_char d)"
| "strcmp (c # cs) [] = int (of_char c)"
| "strcmp (c # cs) (d # ds) =
     (if c = d then strcmp cs ds else int (of_char c) - int (of_char d))"

definition isspace :: "char \<Rightarrow> bool" where
  "isspace c = (c \<in> set [CHR '' '', CHR 0x09, CHR 0x0A, CHR 0x0B, CHR 0x0C, CHR 0x0D])"

definition tolower :: "char \<Rightarrow> char" where
  "tolower c =
     (let n = of_char c :: nat in if 65 \<le> n \<and> n \<le> 90 then char_of (n + 32) else c)"

definition digit_val :: "char \<Rightarrow> nat option" where
  "digit_val c =
     (let n = of_char c :: nat in if 48 \<le> n \<and> n \<le> 57 then Some (n - 48) else None)"

definition hex_val :: "char \<Rightarrow> nat option" where
  "hex_val c =
     (let n = of_char (tolower c) :: nat
      in if 48 \<le> n \<and> n \<le> 57 then Some (n - 48)
         else if 97 \<le> n \<and> n \<le> 102 then Some (n - 87)
         else None)"

text \<open>The longest run of digits at the head of a string, and what follows it.\<close>

fun take_digits :: "(char \<Rightarrow> nat option) \<Rightarrow> string \<Rightarrow> nat list \<times> string" where
  "take_digits f [] = ([], [])"
| "take_digits f (c # cs) =
     (case f c of
        None \<Rightarrow> ([], c # cs)
      | Some d \<Rightarrow> (let (ds, r) = take_digits f cs in (d # ds, r)))"

definition digits_value :: "nat \<Rightarrow> nat list \<Rightarrow> nat" where
  "digits_value b ds = foldl (\<lambda>a d. a * b + d) 0 ds"

definition scan_sign :: "string \<Rightarrow> bool \<times> string" where
  "scan_sign s =
     (case s of
        [] \<Rightarrow> (False, s)
      | c # cs \<Rightarrow>
          if c = CHR ''-'' then (True, cs)
          else if c = CHR ''+'' then (False, cs)
          else (False, s))"

text \<open>Digits with at most one radix point: the digits before it, those after it, and
  the rest of the input.\<close>

definition scan_mantissa ::
  "(char \<Rightarrow> nat option) \<Rightarrow> string \<Rightarrow> nat list \<times> nat list \<times> string" where
  "scan_mantissa f s =
     (let (ip, r) = take_digits f s
      in case r of
           [] \<Rightarrow> (ip, [], r)
         | c # cs \<Rightarrow>
             if c = CHR ''.'' then (let (fp, r') = take_digits f cs in (ip, fp, r'))
             else (ip, [], r))"

text \<open>
  The optional exponent part, introduced by \<open>marker\<close> (\<open>e\<close> or \<open>p\<close>, in either
  case) with an optional sign: its value, 0 when there is none. A marker that no digit
  follows is not an exponent part: the number ends before it, and the value is 0 as
  well (\<open>2e\<close>, \<open>2e+\<close> and \<open>2ergs\<close> are read as 2).
\<close>

definition scan_exponent :: "char \<Rightarrow> string \<Rightarrow> int" where
  "scan_exponent marker s =
     (case s of
        [] \<Rightarrow> 0
      | c # cs \<Rightarrow>
          if tolower c \<noteq> marker then 0
          else (let (neg, r) = scan_sign cs; (ds, r') = take_digits digit_val r
                in if ds = [] then 0
                   else if neg then - int (digits_value 10 ds)
                   else int (digits_value 10 ds)))"

text \<open>A decimal number (digits in base 10, exponent marker \<open>e\<close>, a power of ten):
  its exact value, \<open>None\<close> when there is no digit.\<close>

definition scan_decimal :: "string \<Rightarrow> rat option" where
  "scan_decimal s =
     (let (ip, fp, r) = scan_mantissa digit_val s
      in if ip = [] \<and> fp = [] then None
         else Some (of_nat (digits_value 10 (ip @ fp)) *
                    10 powi (scan_exponent (CHR ''e'') r - int (length fp))))"

text \<open>
  What follows \<open>0x\<close>: a hexadecimal number (digits in base 16, exponent marker \<open>p\<close>,
  a power of two) and its exact value. When no hexadecimal digit follows, a radix point
  alone is still collected, and the number converted is the \<open>0\<close> before the \<open>x\<close>;
  with neither digit nor radix point the conversion fails (\<open>None\<close>).
\<close>

definition scan_hex :: "string \<Rightarrow> rat option" where
  "scan_hex s =
     (let (ip, fp, r) = scan_mantissa hex_val s
      in if ip = [] \<and> fp = [] then
           (case s of
              [] \<Rightarrow> None
            | c # cs \<Rightarrow> if c = CHR ''.'' then Some 0 else None)
         else Some (of_nat (digits_value 16 (ip @ fp)) *
                    2 powi (scan_exponent (CHR ''p'') r - 4 * int (length fp))))"

text \<open>
  The conversion \<open>%f\<close> at the head of the input, white space already skipped: an
  optional sign, then \<open>INF\<close> or \<open>INFINITY\<close> (an \<open>INF\<close> that goes on with an
  \<open>I\<close> must go on to \<open>INFINITY\<close>), \<open>NAN\<close>, a hexadecimal number after \<open>0x\<close>, or
  a decimal number; the value is rounded to \<open>float\<close>. Characters after the number are
  not looked at. \<open>None\<close> is a matching failure.
\<close>

definition scan_float :: "string \<Rightarrow> float option" where
  "scan_float s =
     (let (neg, r) = scan_sign s
      in if map tolower (take 3 r) = ''inf'' then
           (let k = length (takeWhile (\<lambda>(a, b). tolower a = b) (zip (drop 3 r) ''inity''))
            in if k = 0 \<or> k = 5 then Some (if neg then NInf else PInf) else None)
         else if map tolower (take 3 r) = ''nan'' then Some NaN
         else
           (case (if map tolower (take 2 r) = ''0x'' then scan_hex (drop 2 r)
                  else scan_decimal r) of
              None \<Rightarrow> None
            | Some x \<Rightarrow> Some (to_float (if neg then - x else x))))"

text \<open>Ordinary characters of a format: each must be the next character of the input.
  \<open>Inl (- 1)\<close> is an input failure (the input ends: \<open>EOF\<close>), \<open>Inl 0\<close> a matching
  failure, \<open>Inr\<close> the input that is left.\<close>

fun match_literal :: "string \<Rightarrow> string \<Rightarrow> int + string" where
  "match_literal [] s = Inr s"
| "match_literal (c # cs) [] = Inl (- 1)"
| "match_literal (c # cs) (d # ds) = (if c = d then match_literal cs ds else Inl 0)"

text \<open>\<open>sscanf(line, "UserScale=%f", &scale)\<close>: the value returned and, when it is
  1, the value stored in \<open>scale\<close>.\<close>

definition sscanf_UserScale :: "string \<Rightarrow> int \<times> float option" where
  "sscanf_UserScale line =
     (case match_literal ''UserScale='' line of
        Inl n \<Rightarrow> (n, None)
      | Inr rest \<Rightarrow>
          (case dropWhile isspace rest of
             [] \<Rightarrow> (- 1, None)
           | c # cs \<Rightarrow>
               (case scan_float (c # cs) of
                  None \<Rightarrow> (0, None)
                | Some v \<Rightarrow> (1, Some v))))"

text \<open>The decimal digits of a natural number, and of a number below 1000 on three
  places.\<close>

definition digit_char :: "nat \<Rightarrow> char" where
  "digit_char d = char_of (48 + d)"

fun dec_digits :: "nat \<Rightarrow> string" where
  "dec_digits n = (if n < 10 then [digit_char n] else dec_digits (n div 10) @ [digit_char (n mod 10)])"

definition three_digits :: "nat \<Rightarrow> string" where
  "three_digits n = [digit_char (n div 100), digit_char (n div 10 mod 10), digit_char (n mod 10)]"

text \<open>The conversion \<open>%.3f\<close> of a \<open>float\<close> argument (promoted to \<open>double\<close>, which
  changes no value): the exact value rounded to three decimal places.\<close>

definition format_f3 :: "float \<Rightarrow> string" where
  "format_f3 v =
     (case v of
        NaN \<Rightarrow> ''nan''
      | PInf \<Rightarrow> ''inf''
      | NInf \<Rightarrow> ''-inf''
      | Fin x \<Rightarrow>
          (let n = nat (round_half_even (\<bar>x\<bar> * 1000))
           in (if x < 0 then ''-'' else []) @ dec_digits (n div 1000) @ ''.'' @
              three_digits (n mod 1000)))"

section \<open>The host toolkit, as far as ImGuiScaling.cpp uses it\<close>

text \<open>
  A callback slot of a settings handler holds the address of a function; the three
  functions of ImGuiScaling.cpp that are stored in such slots are named here.
\<close>

datatype callback =
    Fn_SettingsHandler_ReadOpen
  | Fn_SettingsHandler_ReadLine
  | Fn_SettingsHandler_WriteAll

text \<open>
  Modelled from the spec: the handler record of the host toolkit ("type name, type hash,
  three callback slots"; \<open>ImGuiSettingsHandler\<close> is declared in the toolkit's headers,
  which are not part of the repository). A slot that was never assigned is \<open>None\<close>.
\<close>

record ImGuiSettingsHandler =
  TypeName :: string
  TypeHash :: "32 word"
  ReadOpenFn :: "callback option"
  ReadLineFn :: "callback option"
  WriteAllFn :: "callback option"

text \<open>
  Modelled from the spec: the toolkit's context, of which the program uses "the
  settings-handler registration list" and the mark that the persisted settings need a
  save.
\<close>

record ImGuiContext =
  SettingsHandlers :: "ImGuiSettingsHandler list"
  SettingsDirty :: bool

text \<open>Modelled from the spec: \<open>ImGui::MarkIniSettingsDirty\<close> "marks the host
  toolkit's persisted-settings store as needing a save".\<close>

definition MarkIniSettingsDirty :: "ImGuiContext \<Rightarrow> ImGuiContext" where
  "MarkIniSettingsDirty c = c\<lparr>SettingsDirty := True\<rparr>"

text \<open>Modelled from the spec: the toolkit's text buffer is the text appended to it so
  far; \<open>ImGuiTextBuffer::append\<close> adds text at its end, and so does \<open>appendf\<close> with
  the text that its format and arguments produce.\<close>

type_synonym ImGuiTextBuffer = string

definition buf_append :: "string \<Rightarrow> ImGuiTextBuffer \<Rightarrow> ImGuiTextBuffer" where
  "buf_append str buf = buf @ str"

section \<open>Global state and persistence (ImGuiScaling.cpp)\<close>

text \<open>
  The two static variables of the translation unit, and the toolkit's current context
  (\<open>ImGui::GetCurrentContext()\<close>; \<open>None\<close> is the null pointer).
\<close>

record globals =
  g_userScale :: float
  g_settingsHandlerRegistered :: bool
  CurrentContext :: "ImGuiContext option"

text \<open>The state at process start: the static initialisers, and no context yet.\<close>

definition globals_init :: globals where
  "globals_init =
     \<lparr>g_userScale = Fin 1, g_settingsHandlerRegistered = False, CurrentContext = None\<rparr>"

definition GetUserScale :: "globals \<Rightarrow> float" where
  "GetUserScale g = g_userScale g"

definition SetUserScale :: "float \<Rightarrow> globals \<Rightarrow> globals" where
  "SetUserScale scale g =
     (if float_gt scale (Fin 0) then
        (let g' = g\<lparr>g_userScale := scale\<rparr>
         in case CurrentContext g' of
              Some c \<Rightarrow> g'\<lparr>CurrentContext := Some (MarkIniSettingsDirty c)\<rparr>
            | None \<Rightarrow> g')
      else g)"

text \<open>An entry token is a \<open>void*\<close>: an address, 0 for the null pointer.\<close>

type_synonym void_ptr = nat

definition nullptr :: void_ptr where
  "nullptr = 0"

definition SettingsHandler_ReadOpen :: "string \<Rightarrow> void_ptr" where
  "SettingsHandler_ReadOpen name = (if strcmp name ''Data'' = 0 then 1 else nullptr)"

definition SettingsHandler_ReadLine :: "void_ptr \<Rightarrow> string \<Rightarrow> globals \<Rightarrow> globals" where
  "SettingsHandler_ReadLine entry line g =
     (if entry = nullptr then g
      else (let (n, stored) = sscanf_UserScale line
            in if n = 1 then
                 (case stored of
                    None \<Rightarrow> g
                  | Some scale \<Rightarrow>
                      if float_gt scale (Fin 0) \<and> float_le scale (Fin 10)
                      then g\<lparr>g_userScale := scale\<rparr> else g)
               else g))"

definition SettingsHandler_WriteAll ::
  "ImGuiSettingsHandler \<Rightarrow> ImGuiTextBuffer \<Rightarrow> globals \<Rightarrow> ImGuiTextBuffer" where
  "SettingsHandler_WriteAll handler buf g =
     buf_append [CHR 0x0A]
       (buf_append (''UserScale='' @ format_f3 (g_userScale g) @ [CHR 0x0A])
          (buf_append (''['' @ TypeName handler @ ''][Data]'' @ [CHR 0x0A]) buf))"

text \<open>The handler that \<open>RegisterSettingsHandler\<close> builds. \<open>ImHashStr\<close> is the
  toolkit's string hash, a parameter here.\<close>

definition scaling_handler :: "(string \<Rightarrow> 32 word) \<Rightarrow> ImGuiSettingsHandler" where
  "scaling_handler ImHashStr =
     \<lparr>TypeName = ''ImGuiScaling'',
      TypeHash = ImHashStr ''ImGuiScaling'',
      ReadOpenFn = Some Fn_SettingsHandler_ReadOpen,
      ReadLineFn = Some Fn_SettingsHandler_ReadLine,
      WriteAllFn = Some Fn_SettingsHandler_WriteAll\<rparr>"

definition RegisterSettingsHandler :: "(string \<Rightarrow> 32 word) \<Rightarrow> globals \<Rightarrow> globals" where
  "RegisterSettingsHandler ImHashStr g =
     (if g_settingsHandlerRegistered g then g
      else (case CurrentContext g of
              None \<Rightarrow> g
            | Some ctx \<Rightarrow>
                g\<lparr>CurrentContext :=
                     Some (ctx\<lparr>SettingsHandlers :=
                                 SettingsHandlers ctx @ [scaling_handler ImHashStr]\<rparr>),
                   g_settingsHandlerRegistered := True\<rparr>))"

section \<open>Sequences of calls\<close>

text \<open>The calls a client (or, for the callbacks, the toolkit) can make on a
  \<open>Scalable\<close>, and what each does to it.\<close>

datatype scalable_call = Call_SetScale float | Call_AcknowledgeScaleChange

fun scalable_step :: "Scalable \<Rightarrow> scalable_call \<Rightarrow> Scalable" where
  "scalable_step s (Call_SetScale x) = SetScale x s"
| "scalable_step s Call_AcknowledgeScaleChange = AcknowledgeScaleChange s"

definition scalable_run_from :: "Scalable \<Rightarrow> scalable_call list \<Rightarrow> Scalable" where
  "scalable_run_from s calls = foldl scalable_step s calls"

text \<open>The calls, oldest first, made on a freshly constructed object.\<close>

definition scalable_run :: "scalable_call list \<Rightarrow> Scalable" where
  "scalable_run calls = scalable_run_from Scalable_init calls"

text \<open>
  A sequence of calls splits at its most recent \<open>AcknowledgeScaleChange\<close>: the calls
  up to and including it (none when there was no acknowledgement), and the calls after
  it.
\<close>

definition upto_last_ack :: "scalable_call list \<Rightarrow> scalable_call list" where
  "upto_last_ack calls =
     rev (dropWhile (\<lambda>c. c \<noteq> Call_AcknowledgeScaleChange) (rev calls))"

definition since_last_ack :: "scalable_call list \<Rightarrow> scalable_call list" where
  "since_last_ack calls =
     rev (takeWhile (\<lambda>c. c \<noteq> Call_AcknowledgeScaleChange) (rev calls))"

text \<open>The scale the object had at the most recent acknowledgement, 1.0 (the scale
  of a fresh object) when there was none.\<close>

definition acked_scale :: "scalable_call list \<Rightarrow> float" where
  "acked_scale calls = GetScale (scalable_run (upto_last_ack calls))"

text \<open>The number of calls, made from state \<open>s\<close> on, that change the stored scale:
  calls of \<open>SetScale\<close> whose argument is positive and differs from the scale stored
  when the call is made.\<close>

fun count_effective :: "Scalable \<Rightarrow> scalable_call list \<Rightarrow> nat" where
  "count_effective s [] = 0"
| "count_effective s (Call_SetScale x # cs) =
     (if float_gt x (Fin 0) \<and> float_ne x (m_scale s) then 1 else 0) +
     count_effective (SetScale x s) cs"
| "count_effective s (Call_AcknowledgeScaleChange # cs) =
     count_effective (AcknowledgeScaleChange s) cs"

definition changes_since_ack :: "scalable_call list \<Rightarrow> nat" where
  "changes_since_ack calls =
     count_effective (scalable_run (upto_last_ack calls)) (since_last_ack calls)"

text \<open>The calls that can write the global user scale, with the registration of the
  handler, and what each does to the global state.\<close>

datatype global_call =
    Call_SetUserScale float
  | Call_ReadLine void_ptr string
  | Call_RegisterSettingsHandler
  | Toolkit_SetCurrentContext "ImGuiContext option"

fun global_step :: "(string \<Rightarrow> 32 word) \<Rightarrow> globals \<Rightarrow> global_call \<Rightarrow> globals" where
  "global_step h g (Call_SetUserScale x) = SetUserScale x g"
| "global_step h g (Call_ReadLine entry line) = SettingsHandler_ReadLine entry line g"
| "global_step h g Call_RegisterSettingsHandler = RegisterSettingsHandler h g"
| "global_step h g (Toolkit_SetCurrentContext c) = g\<lparr>CurrentContext := c\<rparr>"

definition global_run :: "(string \<Rightarrow> 32 word) \<Rightarrow> global_call list \<Rightarrow> globals" where
  "global_run h calls = foldl (global_step h) globals_init calls"

section \<open>The read-line callback in the specification's words\<close>

text \<open>
  The specification describes the line that the read-line callback accepts as "the exact
  ASCII text \<open>UserScale=\<close> immediately followed by a parseable floating-point number".
  Read literally, the number starts at the character after the \<open>=\<close> sign:
  \<open>spec_line_value\<close> is the value of such a line, and \<open>spec_ReadLine\<close> the callback
  that overwrites the global user scale for exactly these lines, when the value is in
  the range from 0 (excluded) to 10 (included).
\<close>

definition spec_line_value :: "string \<Rightarrow> float option" where
  "spec_line_value line =
     (case match_literal ''UserScale='' line of
        Inl n \<Rightarrow> None
      | Inr rest \<Rightarrow> scan_float rest)"

definition spec_ReadLine :: "void_ptr \<Rightarrow> string \<Rightarrow> globals \<Rightarrow> globals" where
  "spec_ReadLine entry line g =
     (if entry = nullptr then g
      else (case spec_line_value line of
              None \<Rightarrow> g
            | Some v \<Rightarrow>
                if float_gt v (Fin 0) \<and> float_le v (Fin 10)
                then g\<lparr>g_userScale := v\<rparr> else g))"

section \<open>Properties of \<open>Scalable\<close>\<close>

lemma float_gt_zero_not_NaN: "float_gt x (Fin 0) \<Longrightarrow> x \<noteq> NaN"
  by (cases x) (simp_all add: float_gt_def)

lemma float_ne_self: "float_ne x x = (x = NaN)"
  by (simp add: float_ne_def float_eq_def)

lemma float_ne_sym: "float_ne a b = float_ne b a"
  by (auto simp add: float_ne_def float_eq_def)

text \<open>
  Claim C4. \<open>SetScale\<close> with a positive argument that differs from the stored scale
  records the old scale as the previous scale, stores the argument and calls the hook
  exactly once; with any other argument (not positive, or equal to the stored scale) it
  changes nothing and does not call the hook; so the same call made twice in a row does
  what it does once.
\<close>

theorem SetScale_effect:
  "(float_gt x (Fin 0) \<and> float_ne x (m_scale s) \<longrightarrow>
      m_prevScale (SetScale x s) = m_scale s \<and>
      m_scale (SetScale x s) = x \<and>
      hook_calls (SetScale x s) = hook_calls s + 1) \<and>
   (\<not> float_gt x (Fin 0) \<or> float_eq x (m_scale s) \<longrightarrow> SetScale x s = s) \<and>
   SetScale x (SetScale x s) = SetScale x s"
proof (intro conjI impI)
  assume eff: "float_gt x (Fin 0) \<and> float_ne x (m_scale s)"
  then show "m_prevScale (SetScale x s) = m_scale s"
    and "m_scale (SetScale x s) = x"
    and "hook_calls (SetScale x s) = hook_calls s + 1"
    by (simp_all add: SetScale_def OnScaleChanged_def)
next
  assume "\<not> float_gt x (Fin 0) \<or> float_eq x (m_scale s)"
  then show "SetScale x s = s"
    by (auto simp add: SetScale_def float_ne_def)
next
  show "SetScale x (SetScale x s) = SetScale x s"
  proof (cases "float_gt x (Fin 0) \<and> float_ne x (m_scale s)")
    case True
    then have "x \<noteq> NaN" by (simp add: float_gt_zero_not_NaN)
    then have same: "\<not> float_ne x x" by (simp add: float_ne_self)
    from True have "m_scale (SetScale x s) = x"
      by (simp add: SetScale_def OnScaleChanged_def)
    with same have "\<not> (float_gt x (Fin 0) \<and> float_ne x (m_scale (SetScale x s)))"
      by simp
    then show ?thesis
      by (subst SetScale_def) (simp only: if_False)
  next
    case False
    then have "SetScale x s = s" by (auto simp add: SetScale_def)
    then show ?thesis by simp
  qed
qed

theorem SetScale_effect_witness:
  "float_gt (Fin 2) (Fin 0) \<and> float_ne (Fin 2) (m_scale Scalable_init) \<and>
   m_prevScale (SetScale (Fin 2) Scalable_init) = Fin 1 \<and>
   m_scale (SetScale (Fin 2) Scalable_init) = Fin 2 \<and>
   hook_calls (SetScale (Fin 2) Scalable_init) = 1 \<and>
   \<not> float_gt (Fin (- 1)) (Fin 0) \<and>
   SetScale (Fin (- 1)) Scalable_init = Scalable_init \<and>
   float_eq (Fin 1) (m_scale Scalable_init) \<and>
   SetScale (Fin 1) Scalable_init = Scalable_init"
  using SetScale_effect [of "Fin 2" Scalable_init]
    SetScale_effect [of "Fin (- 1)" Scalable_init]
    SetScale_effect [of "Fin 1" Scalable_init]
  by (simp add: Scalable_init_def float_gt_def float_ne_def float_eq_def)

subsection \<open>The stored scale stays positive\<close>

lemma scalable_run_from_positive:
  "float_gt (m_scale s) (Fin 0) \<Longrightarrow> float_gt (m_scale (scalable_run_from s cs)) (Fin 0)"
proof (induction cs arbitrary: s)
  case Nil
  then show ?case by (simp add: scalable_run_from_def)
next
  case (Cons c cs)
  have "float_gt (m_scale (scalable_step s c)) (Fin 0)"
    using Cons.prems
    by (cases c) (simp_all add: SetScale_def OnScaleChanged_def AcknowledgeScaleChange_def)
  then have "float_gt (m_scale (scalable_run_from (scalable_step s c) cs)) (Fin 0)"
    by (rule Cons.IH)
  then show ?case by (simp add: scalable_run_from_def)
qed

lemma scalable_run_not_NaN: "m_scale (scalable_run calls) \<noteq> NaN"
proof -
  have "float_gt (m_scale (scalable_run calls)) (Fin 0)"
    unfolding scalable_run_def
    by (rule scalable_run_from_positive) (simp add: Scalable_init_def float_gt_def)
  then show ?thesis by (rule float_gt_zero_not_NaN)
qed

text \<open>
  Claim C7. The state machine of a \<open>Scalable\<close>. A fresh object is synchronized:
  \<open>GetScale() == 1.0\<close> and \<open>HasScaleChanged()\<close> is false. \<open>SetScale(2.0)\<close> on it
  gives \<open>GetScale() == 2.0\<close> and \<open>HasScaleChanged() == true\<close> (pending), and
  \<open>AcknowledgeScaleChange()\<close> then gives \<open>HasScaleChanged() == false\<close> with
  \<open>GetScale()\<close> still 2.0. In general, in any state the object can reach, a
  \<open>SetScale\<close> that changes the scale leaves the object pending with the new scale, and
  \<open>AcknowledgeScaleChange\<close> leaves it synchronized with the scale it had.
\<close>

theorem Scalable_state_machine:
  "GetScale Scalable_init = Fin 1 \<and>
   \<not> HasScaleChanged Scalable_init \<and>
   GetScale (SetScale (Fin 2) Scalable_init) = Fin 2 \<and>
   HasScaleChanged (SetScale (Fin 2) Scalable_init) \<and>
   \<not> HasScaleChanged (AcknowledgeScaleChange (SetScale (Fin 2) Scalable_init)) \<and>
   GetScale (AcknowledgeScaleChange (SetScale (Fin 2) Scalable_init)) = Fin 2 \<and>
   (float_gt x (Fin 0) \<and> float_ne x (GetScale (scalable_run calls)) \<longrightarrow>
      HasScaleChanged (SetScale x (scalable_run calls)) \<and>
      GetScale (SetScale x (scalable_run calls)) = x) \<and>
   \<not> HasScaleChanged (AcknowledgeScaleChange (scalable_run calls)) \<and>
   GetScale (AcknowledgeScaleChange (scalable_run calls)) = GetScale (scalable_run calls)"
proof -
  have fresh: "GetScale Scalable_init = Fin 1 \<and> \<not> HasScaleChanged Scalable_init"
    by (simp add: GetScale_def HasScaleChanged_def Scalable_init_def float_ne_def float_eq_def)
  have set2: "GetScale (SetScale (Fin 2) Scalable_init) = Fin 2 \<and>
      HasScaleChanged (SetScale (Fin 2) Scalable_init)"
    by (simp add: GetScale_def HasScaleChanged_def Scalable_init_def SetScale_def
        OnScaleChanged_def float_gt_def float_ne_def float_eq_def)
  have ack2: "\<not> HasScaleChanged (AcknowledgeScaleChange (SetScale (Fin 2) Scalable_init)) \<and>
      GetScale (AcknowledgeScaleChange (SetScale (Fin 2) Scalable_init)) = Fin 2"
    by (simp add: GetScale_def HasScaleChanged_def Scalable_init_def SetScale_def
        OnScaleChanged_def AcknowledgeScaleChange_def float_gt_def float_ne_def float_eq_def)
  have pending: "float_gt x (Fin 0) \<and> float_ne x (GetScale (scalable_run calls)) \<longrightarrow>
      HasScaleChanged (SetScale x (scalable_run calls)) \<and>
      GetScale (SetScale x (scalable_run calls)) = x"
    by (simp add: GetScale_def HasScaleChanged_def SetScale_def OnScaleChanged_def)
  have "m_scale (scalable_run calls) \<noteq> NaN"
    by (rule scalable_run_not_NaN)
  then have sync: "\<not> HasScaleChanged (AcknowledgeScaleChange (scalable_run calls)) \<and>
      GetScale (AcknowledgeScaleChange (scalable_run calls)) = GetScale (scalable_run calls)"
    by (simp add: GetScale_def HasScaleChanged_def AcknowledgeScaleChange_def
        float_ne_def float_eq_def)
  from fresh set2 ack2 pending sync show ?thesis by blast
qed

theorem Scalable_state_machine_witness:
  "float_gt (Fin 3) (Fin 0) \<and>
   float_ne (Fin 3)
     (GetScale (scalable_run [Call_SetScale (Fin 2), Call_AcknowledgeScaleChange])) \<and>
   HasScaleChanged
     (SetScale (Fin 3) (scalable_run [Call_SetScale (Fin 2), Call_AcknowledgeScaleChange])) \<and>
   GetScale
     (SetScale (Fin 3) (scalable_run [Call_SetScale (Fin 2), Call_AcknowledgeScaleChange])) =
     Fin 3"
proof -
  have h: "float_gt (Fin 3) (Fin 0) \<and>
    float_ne (Fin 3)
      (GetScale (scalable_run [Call_SetScale (Fin 2), Call_AcknowledgeScaleChange]))"
    by (simp add: scalable_run_def scalable_run_from_def Scalable_init_def SetScale_def
      OnScaleChanged_def AcknowledgeScaleChange_def GetScale_def float_gt_def float_ne_def
      float_eq_def)
  with Scalable_state_machine
    [of "Fin 3" "[Call_SetScale (Fin 2), Call_AcknowledgeScaleChange]"]
  show ?thesis by blast
qed

subsection \<open>What \<open>HasScaleChanged\<close> reports\<close>

lemma scalable_run_snoc: "scalable_run (cs @ [c]) = scalable_step (scalable_run cs) c"
  by (simp add: scalable_run_def scalable_run_from_def)

lemma upto_last_ack_snoc:
  "upto_last_ack (cs @ [c]) =
     (if c = Call_AcknowledgeScaleChange then cs @ [c] else upto_last_ack cs)"
  by (simp add: upto_last_ack_def)

lemma since_last_ack_snoc:
  "since_last_ack (cs @ [c]) =
     (if c = Call_AcknowledgeScaleChange then [] else since_last_ack cs @ [c])"
  by (simp add: since_last_ack_def)

lemma upto_since_last_ack: "upto_last_ack cs @ since_last_ack cs = cs"
  by (simp add: upto_last_ack_def since_last_ack_def flip: rev_append)

lemma run_upto_since:
  "scalable_run_from (scalable_run (upto_last_ack cs)) (since_last_ack cs) = scalable_run cs"
proof -
  have "scalable_run (upto_last_ack cs @ since_last_ack cs) =
    scalable_run_from (scalable_run (upto_last_ack cs)) (since_last_ack cs)"
    by (simp add: scalable_run_def scalable_run_from_def)
  then show ?thesis by (simp add: upto_since_last_ack)
qed

lemma count_effective_snoc:
  "count_effective s (cs @ [c]) =
     count_effective s cs + count_effective (scalable_run_from s cs) [c]"
  by (induction s cs rule: count_effective.induct)
     (simp_all add: scalable_run_from_def)

lemma acked_scale_snoc_ack:
  "acked_scale (cs @ [Call_AcknowledgeScaleChange]) = m_scale (scalable_run cs)"
  by (simp add: acked_scale_def upto_last_ack_snoc scalable_run_snoc GetScale_def
      AcknowledgeScaleChange_def)

lemma acked_scale_snoc_set:
  "acked_scale (cs @ [Call_SetScale x]) = acked_scale cs"
  by (simp add: acked_scale_def upto_last_ack_snoc)

lemma changes_snoc_ack:
  "changes_since_ack (cs @ [Call_AcknowledgeScaleChange]) = 0"
  by (simp add: changes_since_ack_def since_last_ack_snoc)

lemma changes_snoc_set:
  "changes_since_ack (cs @ [Call_SetScale x]) =
     changes_since_ack cs +
     (if float_gt x (Fin 0) \<and> float_ne x (m_scale (scalable_run cs)) then 1 else 0)"
  by (simp add: changes_since_ack_def since_last_ack_snoc upto_last_ack_snoc
      count_effective_snoc run_upto_since)

text \<open>
  How the two members relate to the history of calls: with no change since the last
  acknowledgement both members hold the acknowledged scale; after a change they differ;
  after exactly one change \<open>m_prevScale\<close> still holds the acknowledged scale.
\<close>

lemma scalable_history:
  "float_gt (m_scale (scalable_run cs)) (Fin 0) \<and>
   (changes_since_ack cs = 0 \<longrightarrow>
      m_prevScale (scalable_run cs) = m_scale (scalable_run cs) \<and>
      acked_scale cs = m_scale (scalable_run cs)) \<and>
   (0 < changes_since_ack cs \<longrightarrow>
      float_ne (m_scale (scalable_run cs)) (m_prevScale (scalable_run cs))) \<and>
   (changes_since_ack cs = 1 \<longrightarrow> m_prevScale (scalable_run cs) = acked_scale cs)"
proof (induction cs rule: rev_induct)
  case Nil
  show ?case
    by (simp add: scalable_run_def scalable_run_from_def Scalable_init_def
        acked_scale_def upto_last_ack_def changes_since_ack_def since_last_ack_def
        GetScale_def float_gt_def)
next
  case (snoc c cs)
  show ?case
  proof (cases c)
    case Call_AcknowledgeScaleChange
    with snoc show ?thesis
      by (simp add: scalable_run_snoc acked_scale_snoc_ack changes_snoc_ack
          AcknowledgeScaleChange_def)
  next
    case (Call_SetScale x)
    show ?thesis
    proof (cases "float_gt x (Fin 0) \<and> float_ne x (m_scale (scalable_run cs))")
      case True
      with snoc Call_SetScale show ?thesis
        by (auto simp add: scalable_run_snoc acked_scale_snoc_set changes_snoc_set
            SetScale_def OnScaleChanged_def float_ne_sym)
    next
      case False
      with snoc Call_SetScale show ?thesis
        by (auto simp add: scalable_run_snoc acked_scale_snoc_set changes_snoc_set
            SetScale_def)
    qed
  qed
qed

text \<open>
  Claim C1, as amended. After any sequence of \<open>SetScale\<close> and
  \<open>AcknowledgeScaleChange\<close> calls on a fresh object, \<open>HasScaleChanged()\<close> is true
  exactly when at least one \<open>SetScale\<close> has changed the stored scale since the most
  recent \<open>AcknowledgeScaleChange\<close> (since construction when there was none). When at
  most one such call was made since then, this is the same as "the stored scale differs
  from the scale at the most recent acknowledgement"; and whenever the stored scale
  differs from that scale, \<open>HasScaleChanged()\<close> is true.
\<close>

theorem HasScaleChanged_since_ack:
  "HasScaleChanged (scalable_run calls) = (0 < changes_since_ack calls) \<and>
   (changes_since_ack calls \<le> 1 \<longrightarrow>
      HasScaleChanged (scalable_run calls) =
        float_ne (GetScale (scalable_run calls)) (acked_scale calls)) \<and>
   (float_ne (GetScale (scalable_run calls)) (acked_scale calls) \<longrightarrow>
      HasScaleChanged (scalable_run calls))"
proof -
  let ?s = "scalable_run calls"
  let ?n = "changes_since_ack calls"
  note hist = scalable_history [of calls]
  have not_nan: "m_scale ?s \<noteq> NaN" by (rule scalable_run_not_NaN)
  show ?thesis
  proof (cases "?n = 0")
    case True
    with hist not_nan show ?thesis
      by (simp add: HasScaleChanged_def GetScale_def float_ne_self)
  next
    case False
    with hist have ch: "HasScaleChanged ?s"
      by (simp add: HasScaleChanged_def)
    from False hist have "?n \<le> 1 \<longrightarrow> m_prevScale ?s = acked_scale calls"
      by auto
    with ch False show ?thesis
      by (auto simp add: HasScaleChanged_def GetScale_def)
  qed
qed

theorem HasScaleChanged_since_ack_witness:
  "changes_since_ack [Call_SetScale (Fin 2), Call_AcknowledgeScaleChange, Call_SetScale (Fin 3)]
     \<le> 1 \<and>
   float_ne
     (GetScale (scalable_run
        [Call_SetScale (Fin 2), Call_AcknowledgeScaleChange, Call_SetScale (Fin 3)]))
     (acked_scale [Call_SetScale (Fin 2), Call_AcknowledgeScaleChange, Call_SetScale (Fin 3)]) \<and>
   HasScaleChanged (scalable_run
     [Call_SetScale (Fin 2), Call_AcknowledgeScaleChange, Call_SetScale (Fin 3)])"
proof -
  have "changes_since_ack
      [Call_SetScale (Fin 2), Call_AcknowledgeScaleChange, Call_SetScale (Fin 3)] = 1"
    by (simp add: changes_since_ack_def upto_last_ack_def since_last_ack_def scalable_run_def
        scalable_run_from_def Scalable_init_def SetScale_def OnScaleChanged_def
        AcknowledgeScaleChange_def float_gt_def float_ne_def float_eq_def)
  with HasScaleChanged_since_ack
    [of "[Call_SetScale (Fin 2), Call_AcknowledgeScaleChange, Call_SetScale (Fin 3)]"]
  show ?thesis by auto
qed

text \<open>
  Claim C1 as the specification states it (\<open>HasScaleChanged()\<close> is true exactly when
  the stored scale differs from the scale at the most recent acknowledgement) fails when
  the scale is changed away from the acknowledged value and back: after \<open>SetScale(2.0)\<close>
  and \<open>SetScale(1.0)\<close> on a fresh object the stored scale is the initial 1.0 again, and
  \<open>HasScaleChanged()\<close> is true, because \<open>m_prevScale\<close> holds 2.0.
\<close>

theorem HasScaleChanged_counterexample:
  "HasScaleChanged (scalable_run [Call_SetScale (Fin 2), Call_SetScale (Fin 1)]) \<noteq>
   float_ne (GetScale (scalable_run [Call_SetScale (Fin 2), Call_SetScale (Fin 1)]))
     (acked_scale [Call_SetScale (Fin 2), Call_SetScale (Fin 1)])"
  by (simp add: scalable_run_def scalable_run_from_def Scalable_init_def SetScale_def
      OnScaleChanged_def HasScaleChanged_def GetScale_def acked_scale_def upto_last_ack_def
      float_gt_def float_ne_def float_eq_def)

section \<open>The rounding to \<open>float\<close> on known values\<close>

text \<open>
  The nearest \<open>float\<close> to one tenth; the largest finite \<open>float\<close> and the least
  number that rounds to infinity; the smallest positive \<open>float\<close> and half of it; two
  ties between neighbouring values; and two values that need no rounding.
\<close>

lemma to_float_tenth: "to_float (1 / 10) = Fin (13421773 / 134217728)"
  by code_simp

lemma to_float_largest: "to_float (2 ^ 128 - 2 ^ 104) = Fin (2 ^ 128 - 2 ^ 104)"
  by code_simp

lemma to_float_overflow: "to_float (2 ^ 128 - 2 ^ 103) = PInf"
  by code_simp

lemma to_float_smallest: "to_float (1 / 2 ^ 149) = Fin (1 / 2 ^ 149)"
  by code_simp

lemma to_float_underflow: "to_float (1 / 2 ^ 150) = Fin 0"
  by code_simp

lemma to_float_ties_even:
  "to_float 16777217 = Fin 16777216 \<and> to_float 16777219 = Fin 16777220"
  by code_simp

lemma to_float_one: "to_float 1 = Fin 1"
  by code_simp

lemma to_float_five_quarters: "to_float (5 / 4) = Fin (5 / 4)"
  by code_simp

lemma to_float_three_halves: "to_float (3 / 2) = Fin (3 / 2)"
  by code_simp

lemma to_float_two: "to_float 2 = Fin 2"
  by code_simp

section \<open>Rounding yields a \<open>float\<close>\<close>

text \<open>
  The exponent that \<open>ilog2\<close> computes is the right one, and a value that rounding
  has produced is left as it is by rounding again: the results of \<open>to_float\<close>, of
  \<open>float_mul\<close> and of \<open>scan_float\<close> are values of type \<open>float\<close>.
\<close>

lemma two_powi_nat: "0 \<le> k \<Longrightarrow> (2::rat) powi k = 2 ^ nat k"
  by (simp add: power_int_def)

lemma two_powi_neg: "0 \<le> k \<Longrightarrow> (2::rat) powi (- k) = 1 / 2 ^ nat k"
  by (simp add: power_int_minus two_powi_nat inverse_eq_divide)

lemma bitlen_pos: "0 < n \<Longrightarrow> 1 \<le> bitlen n"
  using bitlen_eq_zero_iff [of n] bitlen_nonneg [of n] by linarith

lemma ilog2_bounds:
  assumes "0 < x"
  shows "2 powi ilog2 x \<le> x \<and> x < 2 powi (ilog2 x + 1)"
proof (cases "1 \<le> x")
  case True
  let ?n = "\<lfloor>x\<rfloor>"
  from True have n: "0 < ?n" by simp
  then have b1: "1 \<le> bitlen ?n" by (rule bitlen_pos)
  from bitlen_bounds [OF n] have lo: "2 ^ nat (bitlen ?n - 1) \<le> ?n"
    and hi: "?n < 2 ^ nat (bitlen ?n)" by simp_all
  from lo have "(of_int (2 ^ nat (bitlen ?n - 1)) :: rat) \<le> of_int ?n"
    by (simp only: of_int_le_iff)
  also have "\<dots> \<le> x" by simp
  finally have lower: "(2::rat) ^ nat (bitlen ?n - 1) \<le> x" by simp
  from hi have "?n + 1 \<le> 2 ^ nat (bitlen ?n)" by simp
  then have "(of_int (?n + 1) :: rat) \<le> of_int (2 ^ nat (bitlen ?n))"
    by (simp only: of_int_le_iff)
  moreover have "x < of_int (?n + 1)"
    using floor_correct [of x] by simp
  ultimately have upper: "x < (2::rat) ^ nat (bitlen ?n)" by simp
  from True have e: "ilog2 x = bitlen ?n - 1" by (simp add: ilog2_def)
  from b1 lower upper show ?thesis
    by (simp add: e two_powi_nat)
next
  case False
  let ?y = "1 / x"
  let ?m = "\<lceil>?y\<rceil> - 1"
  from False assms have y: "1 < ?y" by simp
  then have "1 < \<lceil>?y\<rceil>" by (simp add: less_ceiling_iff)
  then have m: "0 < ?m" by simp
  then have b1: "1 \<le> bitlen ?m" by (rule bitlen_pos)
  from bitlen_bounds [OF m] have lo: "2 ^ nat (bitlen ?m - 1) \<le> ?m"
    and hi: "?m < 2 ^ nat (bitlen ?m)" by simp_all
  have "(of_int ?m :: rat) < ?y"
    using ceiling_correct [of ?y] by simp
  moreover from lo have "(of_int (2 ^ nat (bitlen ?m - 1)) :: rat) \<le> of_int ?m"
    by (simp only: of_int_le_iff)
  ultimately have ylow: "(2::rat) ^ nat (bitlen ?m - 1) < ?y" by simp
  from hi have "\<lceil>?y\<rceil> \<le> 2 ^ nat (bitlen ?m)" by simp
  then have "(of_int \<lceil>?y\<rceil> :: rat) \<le> of_int (2 ^ nat (bitlen ?m))"
    by (simp only: of_int_le_iff)
  with le_of_int_ceiling [of ?y] have "?y \<le> of_int (2 ^ nat (bitlen ?m))"
    by (rule order_trans)
  then have yhigh: "?y \<le> (2::rat) ^ nat (bitlen ?m)"
    by (simp only: of_int_power of_int_numeral)
  from yhigh assms have lower: "1 / 2 ^ nat (bitlen ?m) \<le> x"
    by (simp add: field_simps)
  from ylow assms have upper: "x < 1 / 2 ^ nat (bitlen ?m - 1)"
    by (simp add: field_simps)
  from False have e: "ilog2 x = - bitlen ?m" by (simp add: ilog2_def)
  have p1: "(2::rat) powi (- bitlen ?m) = 1 / 2 ^ nat (bitlen ?m)"
    using b1 by (simp add: two_powi_neg)
  have "(2::rat) powi (- (bitlen ?m - 1)) = 1 / 2 ^ nat (bitlen ?m - 1)"
    using b1 by (intro two_powi_neg) simp
  then have p2: "(2::rat) powi (- bitlen ?m + 1) = 1 / 2 ^ nat (bitlen ?m - 1)"
    by (simp add: algebra_simps)
  from lower upper show ?thesis
    by (simp only: e p1 p2) 
qed


lemma ilog2_less: "0 < x \<Longrightarrow> x < 2 powi k \<Longrightarrow> ilog2 x < k"
proof (rule ccontr)
  assume x: "0 < x" and less: "x < 2 powi k" and "\<not> ilog2 x < k"
  then have "(2::rat) powi k \<le> 2 powi ilog2 x"
    by (simp add: power_int_increasing)
  also from x have "\<dots> \<le> x" by (simp add: ilog2_bounds)
  finally show False using less by simp
qed

lemma ilog2_ge: "0 < x \<Longrightarrow> 2 powi k \<le> x \<Longrightarrow> k \<le> ilog2 x"
proof (rule ccontr)
  assume x: "0 < x" and le: "2 powi k \<le> x" and "\<not> k \<le> ilog2 x"
  then have "(2::rat) powi (ilog2 x + 1) \<le> 2 powi k"
    by (simp add: power_int_increasing)
  with x ilog2_bounds [of x] le show False by simp
qed

lemma round_half_even_of_int: "round_half_even (of_int n) = n"
  by (simp add: round_half_even_def)

lemma round_half_even_le: "x \<le> of_int k \<Longrightarrow> round_half_even x \<le> k"
proof -
  assume x: "x \<le> of_int k"
  then have fl: "\<lfloor>x\<rfloor> \<le> k" by (simp add: floor_le_iff)
  show ?thesis
  proof (cases "\<lfloor>x\<rfloor> = k")
    case True
    with x have "x = of_int k" using of_int_floor_le [of x] by simp
    then show ?thesis by (simp add: round_half_even_of_int)
  next
    case False
    with fl have "\<lfloor>x\<rfloor> + 1 \<le> k" by simp
    then show ?thesis by (simp add: round_half_even_def Let_def)
  qed
qed

lemma round_half_even_pos: "0 < round_half_even x \<Longrightarrow> 0 < x"
proof (rule ccontr)
  assume r: "0 < round_half_even x" and "\<not> 0 < x"
  then have "x \<le> of_int 0" by simp
  then have "round_half_even x \<le> 0" by (rule round_half_even_le)
  with r show False by simp
qed

lemma two_powi_add: "(2::rat) powi (a + b) = 2 powi a * 2 powi b"
  by (simp add: power_int_add)

lemma two_powi_diff: "(2::rat) powi (a - b) = 2 powi a / 2 powi b"
  by (simp add: power_int_diff)

text \<open>A multiple of a unit in the last place stays what it is when the unit gets finer.\<close>

lemma round_multiple:
  assumes "e' \<le> e"
  shows "of_int (round_half_even (of_int n * 2 powi (e - 23) / 2 powi (e' - 23))) *
     2 powi (e' - 23) = (of_int n * 2 powi (e - 23) :: rat)"
proof -
  have "(2::rat) powi (e - 23) = 2 powi (e - e') * 2 powi (e' - 23)"
    by (simp flip: two_powi_add)
  also from assms have "(2::rat) powi (e - e') = of_int (2 ^ nat (e - e'))"
    by (simp add: two_powi_nat)
  finally have split: "(2::rat) powi (e - 23) = of_int (2 ^ nat (e - e')) * 2 powi (e' - 23)" .
  then have "of_int n * 2 powi (e - 23) / 2 powi (e' - 23) =
      (of_int (n * 2 ^ nat (e - e')) :: rat)"
    by simp
  then have "round_half_even (of_int n * 2 powi (e - 23) / 2 powi (e' - 23)) =
      n * 2 ^ nat (e - e')"
    by (simp only: round_half_even_of_int)
  with split show ?thesis by simp
qed

lemma round_magnitude_idem:
  assumes x: "0 < x" and r: "round_magnitude x = Some y" and y: "0 < y"
  shows "round_magnitude y = Some y"
proof -
  define e where "e = max (ilog2 x) (- 126)"
  define u where "u = (2::rat) powi (e - 23)"
  define n where "n = round_half_even (x / u)"
  have u_pos: "0 < u" by (simp add: u_def)
  have e_ge: "- 126 \<le> e" by (simp add: e_def)
  from r have y_eq: "y = of_int n * u" and small: "\<not> 2 ^ 128 \<le> y"
    by (auto simp add: round_magnitude_def Let_def e_def u_def n_def split: if_splits)
  have top: "(2::rat) powi (e + 1) = of_int (2 ^ 24) * u"
  proof -
    have "e + 1 = 24 + (e - 23)" by simp
    then have "(2::rat) powi (e + 1) = 2 powi (24 + (e - 23))" by (simp only:)
    also have "\<dots> = 2 powi 24 * 2 powi (e - 23)" by (rule two_powi_add)
    finally show ?thesis by (simp add: u_def)
  qed
  have "x < 2 powi (ilog2 x + 1)" using x by (simp add: ilog2_bounds)
  also have "\<dots> \<le> 2 powi (e + 1)"
    by (rule power_int_increasing) (simp_all add: e_def)
  finally have "x < of_int (2 ^ 24) * u" by (simp only: top)
  with u_pos have "x / u \<le> of_int (2 ^ 24)"
    by (simp add: field_simps)
  then have n_le: "n \<le> 2 ^ 24" unfolding n_def by (rule round_half_even_le)
  from y u_pos have n_pos: "0 < n"
    by (simp add: y_eq zero_less_mult_iff)
  define e' where "e' = max (ilog2 y) (- 126)"
  have goal: "round_magnitude y =
      (let y' = of_int (round_half_even (y / 2 powi (e' - 23))) * 2 powi (e' - 23)
       in if 2 ^ 128 \<le> y' then None else Some y')"
    by (simp add: round_magnitude_def Let_def e'_def)
  show ?thesis
  proof (cases "n = 2 ^ 24")
    case True
    then have y_top: "y = 2 powi (e + 1)" by (simp add: y_eq top)
    have "e + 1 \<le> ilog2 y" using y by (rule ilog2_ge) (simp add: y_top)
    moreover have "ilog2 y < e + 2" using y
      by (rule ilog2_less) (simp add: y_top power_int_strict_increasing)
    ultimately have "ilog2 y = e + 1" by simp
    with e_ge have e': "e' = e + 1" by (simp add: e'_def)
    have "y = of_int (2 ^ 23) * 2 powi (e + 1 - 23)"
    proof -
      have "e + 1 = 23 + (e + 1 - 23)" by simp
      then have "(2::rat) powi (e + 1) = 2 powi (23 + (e + 1 - 23))" by (simp only:)
      also have "\<dots> = 2 powi 23 * 2 powi (e + 1 - 23)" by (rule two_powi_add)
      finally show ?thesis by (simp add: y_top)
    qed
    then have "of_int (round_half_even (y / 2 powi (e' - 23))) * 2 powi (e' - 23) = y"
      using round_multiple [of "e + 1" "e + 1" "2 ^ 23"] by (simp add: e')
    with small show ?thesis by (simp add: goal)
  next
    case False
    with n_le have "n + 1 \<le> 2 ^ 24" by simp
    then have "(of_int (n + 1) :: rat) \<le> of_int (2 ^ 24)" by (simp only: of_int_le_iff)
    with u_pos have "of_int (n + 1) * u \<le> of_int (2 ^ 24) * u"
      by (simp only: mult_le_cancel_right_pos)
    moreover from u_pos have "of_int n * u < of_int (n + 1) * u" by simp
    ultimately have "y < 2 powi (e + 1)" by (simp add: y_eq top)
    with y have "ilog2 y < e + 1" by (rule ilog2_less)
    with e_ge have "e' \<le> e" by (simp add: e'_def)
    then have "of_int (round_half_even (y / 2 powi (e' - 23))) * 2 powi (e' - 23) = y"
      using round_multiple [of e' e n] by (simp add: y_eq u_def)
    with small show ?thesis by (simp add: goal)
  qed
qed

lemma round_half_even_nonneg: "0 \<le> x \<Longrightarrow> 0 \<le> round_half_even x"
  by (simp add: round_half_even_def Let_def)

lemma round_magnitude_nonneg:
  assumes "0 < x" and "round_magnitude x = Some y"
  shows "0 \<le> y"
proof -
  from assms(1) have "0 \<le> round_half_even (x / 2 powi (max (ilog2 x) (- 126) - 23))"
    by (intro round_half_even_nonneg) simp
  with assms(2) show ?thesis
    by (auto simp add: round_magnitude_def Let_def split: if_splits)
qed

lemma to_float_idem: "to_float x = Fin y \<Longrightarrow> to_float y = Fin y"
proof -
  assume r: "to_float x = Fin y"
  consider "x = 0" | "0 < x" | "x < 0" by linarith
  then show ?thesis
  proof cases
    case 1
    with r show ?thesis by (simp add: to_float_def)
  next
    case 2
    with r have rm: "round_magnitude x = Some y"
      by (simp add: to_float_def split: option.splits)
    with 2 have "0 \<le> y" by (rule round_magnitude_nonneg)
    show ?thesis
    proof (cases "y = 0")
      case True
      then show ?thesis by (simp add: to_float_def)
    next
      case False
      with \<open>0 \<le> y\<close> have "0 < y" by simp
      with 2 rm have "round_magnitude y = Some y" by (rule round_magnitude_idem)
      with \<open>0 < y\<close> show ?thesis by (simp add: to_float_def)
    qed
  next
    case 3
    with r obtain z where rm: "round_magnitude (- x) = Some z" and yz: "y = - z"
      by (auto simp add: to_float_def split: option.splits)
    from 3 have nx: "0 < - x" by simp
    from nx rm have "0 \<le> z" by (rule round_magnitude_nonneg)
    show ?thesis
    proof (cases "z = 0")
      case True
      with yz show ?thesis by (simp add: to_float_def)
    next
      case False
      with \<open>0 \<le> z\<close> have "0 < z" by simp
      with nx rm have "round_magnitude z = Some z" by (rule round_magnitude_idem)
      with \<open>0 < z\<close> yz show ?thesis by (simp add: to_float_def)
    qed
  qed
qed

lemma is_float_to_float: "is_float (to_float x)"
  by (cases "to_float x") (simp_all add: to_float_idem)

lemma is_float_float_mul: "is_float (float_mul a b)"
  by (cases a; cases b) (simp_all add: is_float_to_float float_eq_def)

lemma is_float_scan_float: "scan_float s = Some v \<Longrightarrow> is_float v"
  by (auto simp add: scan_float_def Let_def is_float_to_float
      split: prod.splits if_splits list.splits option.splits)

section \<open>Properties of \<open>ScaleConfig\<close>\<close>

lemma to_float_not_NaN: "to_float x \<noteq> NaN"
  by (simp add: to_float_def split: option.split)

lemma float_mul_positive_not_NaN:
  "float_gt a (Fin 0) \<Longrightarrow> float_gt b (Fin 0) \<Longrightarrow> float_mul a b \<noteq> NaN"
  by (cases a; cases b) (simp_all add: float_gt_def float_eq_def to_float_not_NaN)

lemma float_mul_one: "is_float e \<Longrightarrow> e \<noteq> NaN \<Longrightarrow> float_mul (Fin 1) e = e"
  by (cases e) (simp_all add: float_eq_def)

lemma is_float_three_halves: "is_float (Fin (3 / 2))"
  by (simp add: to_float_three_halves)

text \<open>
  Claim C9. A default-constructed \<open>ScaleConfig\<close> has \<open>dpiScale == 1.0\<close>,
  \<open>userScale == 1.0\<close> and effective scale 1.0. For all positive \<open>dpi\<close> and \<open>user\<close>,
  \<open>Create(dpi, user)\<close> stores both as they are and
  \<open>Create(dpi, user).GetEffectiveScale() == dpi * user\<close>. For every positive
  \<open>effective\<close> (a value of type \<open>float\<close>), \<open>FromEffective(effective)\<close> has
  \<open>dpiScale == 1.0\<close> and \<open>FromEffective(effective).GetEffectiveScale() == effective\<close>.
  Here \<open>==\<close> and \<open>*\<close> are those of \<open>float\<close>.
\<close>

theorem ScaleConfig_effective_scale:
  "dpiScale ScaleConfig_default = Fin 1 \<and>
   userScale ScaleConfig_default = Fin 1 \<and>
   GetEffectiveScale ScaleConfig_default = Fin 1 \<and>
   (float_gt dpi (Fin 0) \<and> float_gt user (Fin 0) \<longrightarrow>
      dpiScale (Create dpi user) = dpi \<and>
      userScale (Create dpi user) = user \<and>
      float_eq (GetEffectiveScale (Create dpi user)) (float_mul dpi user)) \<and>
   (is_float effective \<and> float_gt effective (Fin 0) \<longrightarrow>
      dpiScale (FromEffective effective) = Fin 1 \<and>
      float_eq (GetEffectiveScale (FromEffective effective)) effective)"
proof (intro conjI impI)
  show "GetEffectiveScale ScaleConfig_default = Fin 1"
    by (simp add: GetEffectiveScale_def ScaleConfig_default_def to_float_one)
next
  assume pos: "float_gt dpi (Fin 0) \<and> float_gt user (Fin 0)"
  then have "float_mul dpi user \<noteq> NaN"
    by (simp add: float_mul_positive_not_NaN)
  then show "float_eq (GetEffectiveScale (Create dpi user)) (float_mul dpi user)"
    by (simp add: GetEffectiveScale_def Create_def float_eq_def)
next
  assume e: "is_float effective \<and> float_gt effective (Fin 0)"
  then have nn: "effective \<noteq> NaN" by (simp add: float_gt_zero_not_NaN)
  with e have "float_mul (Fin 1) effective = effective"
    by (simp add: float_mul_one)
  with nn show "float_eq (GetEffectiveScale (FromEffective effective)) effective"
    by (simp add: GetEffectiveScale_def FromEffective_def float_eq_def)
qed (simp_all add: ScaleConfig_default_def Create_def FromEffective_def)

theorem ScaleConfig_effective_scale_witness:
  "float_gt (Fin (3 / 2)) (Fin 0) \<and> float_gt (Fin 2) (Fin 0) \<and>
   dpiScale (Create (Fin (3 / 2)) (Fin 2)) = Fin (3 / 2) \<and>
   userScale (Create (Fin (3 / 2)) (Fin 2)) = Fin 2 \<and>
   float_eq (GetEffectiveScale (Create (Fin (3 / 2)) (Fin 2)))
     (float_mul (Fin (3 / 2)) (Fin 2)) \<and>
   is_float (Fin (3 / 2)) \<and>
   dpiScale (FromEffective (Fin (3 / 2))) = Fin 1 \<and>
   float_eq (GetEffectiveScale (FromEffective (Fin (3 / 2)))) (Fin (3 / 2))"
  using ScaleConfig_effective_scale [of "Fin (3 / 2)" "Fin 2" "Fin (3 / 2)"]
    is_float_three_halves
  by (simp add: float_gt_def)

section \<open>Properties of the global user scale\<close>

text \<open>
  Claim C5. The global user scale starts at 1.0. \<open>SetUserScale(scale)\<close> with a positive
  \<open>scale\<close> stores it, so that \<open>GetUserScale()\<close> returns it, and marks the settings of
  the current context dirty when there is one; with no context it only stores the
  scale. With a \<open>scale\<close> that is not positive it changes nothing: the global user scale
  stays and nothing is marked dirty.
\<close>

theorem SetUserScale_effect:
  "GetUserScale globals_init = Fin 1 \<and>
   (float_gt x (Fin 0) \<longrightarrow>
      GetUserScale (SetUserScale x g) = x \<and>
      (\<forall>c. CurrentContext g = Some c \<longrightarrow>
         SetUserScale x g =
           g\<lparr>g_userScale := x, CurrentContext := Some (c\<lparr>SettingsDirty := True\<rparr>)\<rparr>) \<and>
      (CurrentContext g = None \<longrightarrow> SetUserScale x g = g\<lparr>g_userScale := x\<rparr>)) \<and>
   (\<not> float_gt x (Fin 0) \<longrightarrow> SetUserScale x g = g)"
  by (cases "CurrentContext g")
     (simp_all add: GetUserScale_def globals_init_def SetUserScale_def Let_def
        MarkIniSettingsDirty_def)

theorem SetUserScale_effect_witness:
  "float_gt (Fin (3 / 2)) (Fin 0) \<and>
   GetUserScale (SetUserScale (Fin (3 / 2)) globals_init) = Fin (3 / 2) \<and>
   CurrentContext globals_init = None \<and>
   SetUserScale (Fin (3 / 2)) globals_init = globals_init\<lparr>g_userScale := Fin (3 / 2)\<rparr> \<and>
   CurrentContext
     (globals_init\<lparr>CurrentContext := Some \<lparr>SettingsHandlers = [], SettingsDirty = False\<rparr>\<rparr>) =
     Some \<lparr>SettingsHandlers = [], SettingsDirty = False\<rparr> \<and>
   SetUserScale (Fin (3 / 2))
     (globals_init\<lparr>CurrentContext := Some \<lparr>SettingsHandlers = [], SettingsDirty = False\<rparr>\<rparr>) =
     globals_init\<lparr>g_userScale := Fin (3 / 2),
       CurrentContext := Some \<lparr>SettingsHandlers = [], SettingsDirty = True\<rparr>\<rparr> \<and>
   \<not> float_gt (Fin (- 1)) (Fin 0) \<and>
   SetUserScale (Fin (- 1)) (SetUserScale (Fin (3 / 2)) globals_init) =
     SetUserScale (Fin (3 / 2)) globals_init \<and>
   \<not> float_gt (Fin 0) (Fin 0) \<and>
   SetUserScale (Fin 0) (SetUserScale (Fin (3 / 2)) globals_init) =
     SetUserScale (Fin (3 / 2)) globals_init"
  using SetUserScale_effect [of "Fin (3 / 2)" globals_init]
    SetUserScale_effect [of "Fin (3 / 2)"
      "globals_init\<lparr>CurrentContext := Some \<lparr>SettingsHandlers = [], SettingsDirty = False\<rparr>\<rparr>"]
    SetUserScale_effect [of "Fin (- 1)" "SetUserScale (Fin (3 / 2)) globals_init"]
    SetUserScale_effect [of "Fin 0" "SetUserScale (Fin (3 / 2)) globals_init"]
  by (simp add: float_gt_def globals_init_def GetUserScale_def)

lemma global_step_positive:
  "float_gt (g_userScale g) (Fin 0) \<Longrightarrow> float_gt (g_userScale (global_step h g c)) (Fin 0)"
proof (cases c)
  case (Call_SetUserScale x)
  assume "float_gt (g_userScale g) (Fin 0)"
  with Call_SetUserScale show ?thesis
    by (cases "CurrentContext g") (simp_all add: SetUserScale_def Let_def)
next
  case (Call_ReadLine entry line)
  assume "float_gt (g_userScale g) (Fin 0)"
  with Call_ReadLine show ?thesis
    by (simp add: SettingsHandler_ReadLine_def split: prod.split option.split)
next
  case Call_RegisterSettingsHandler
  assume "float_gt (g_userScale g) (Fin 0)"
  with Call_RegisterSettingsHandler show ?thesis
    by (simp add: RegisterSettingsHandler_def split: option.split)
next
  case (Toolkit_SetCurrentContext c')
  assume "float_gt (g_userScale g) (Fin 0)"
  with Toolkit_SetCurrentContext show ?thesis by simp
qed

lemma global_run_from_positive:
  "float_gt (g_userScale g) (Fin 0) \<Longrightarrow>
   float_gt (g_userScale (foldl (global_step h) g calls)) (Fin 0)"
  by (induction calls arbitrary: g) (simp_all add: global_step_positive)

text \<open>
  Claim C10. The global user scale is strictly positive at all times: after any sequence
  of calls of \<open>SetUserScale\<close> and of the read-line callback, with any arguments (and of
  \<open>RegisterSettingsHandler\<close>, with the toolkit creating, switching or destroying its
  context in between), \<open>GetUserScale()\<close> returns a value greater than 0.
\<close>

theorem user_scale_positive:
  "float_gt (GetUserScale (global_run h calls)) (Fin 0)"
  unfolding GetUserScale_def global_run_def
  by (rule global_run_from_positive) (simp add: globals_init_def float_gt_def)

theorem user_scale_positive_witness:
  "float_gt
     (GetUserScale
        (global_run (\<lambda>s. 0)
           [Call_SetUserScale (Fin (- 1)), Call_ReadLine 1 ''UserScale=0.000'',
            Call_SetUserScale NaN, Call_ReadLine 1 ''UserScale=-3''])) (Fin 0)"
  by (rule user_scale_positive)

section \<open>Properties of the settings handler\<close>

text \<open>
  Claim C6. \<open>RegisterSettingsHandler\<close> does nothing when the registration flag is
  already set; with the flag unset and no current context it does nothing, and the flag
  stays false; otherwise it appends exactly one handler (type name \<open>ImGuiScaling\<close>,
  the hash of that name, the three callbacks) to the handler list of the context and
  sets the flag. Called twice in succession it does what one call does: with a context,
  exactly one handler is installed.
\<close>

theorem RegisterSettingsHandler_effect:
  "(g_settingsHandlerRegistered g \<longrightarrow> RegisterSettingsHandler h g = g) \<and>
   (\<not> g_settingsHandlerRegistered g \<and> CurrentContext g = None \<longrightarrow>
      RegisterSettingsHandler h g = g) \<and>
   (\<not> g_settingsHandlerRegistered g \<and> CurrentContext g = Some ctx \<longrightarrow>
      RegisterSettingsHandler h g =
        g\<lparr>CurrentContext :=
             Some (ctx\<lparr>SettingsHandlers := SettingsHandlers ctx @ [scaling_handler h]\<rparr>),
           g_settingsHandlerRegistered := True\<rparr> \<and>
      map_option SettingsHandlers
          (CurrentContext (RegisterSettingsHandler h (RegisterSettingsHandler h g))) =
        Some (SettingsHandlers ctx @ [scaling_handler h])) \<and>
   scaling_handler h =
     \<lparr>TypeName = ''ImGuiScaling'', TypeHash = h ''ImGuiScaling'',
      ReadOpenFn = Some Fn_SettingsHandler_ReadOpen,
      ReadLineFn = Some Fn_SettingsHandler_ReadLine,
      WriteAllFn = Some Fn_SettingsHandler_WriteAll\<rparr> \<and>
   RegisterSettingsHandler h (RegisterSettingsHandler h g) = RegisterSettingsHandler h g"
  by (cases "CurrentContext g")
     (simp_all add: RegisterSettingsHandler_def scaling_handler_def)

theorem RegisterSettingsHandler_effect_witness:
  "\<not> g_settingsHandlerRegistered globals_init \<and> CurrentContext globals_init = None \<and>
   RegisterSettingsHandler (\<lambda>s. 0) globals_init = globals_init \<and>
   \<not> g_settingsHandlerRegistered
       (globals_init\<lparr>CurrentContext := Some \<lparr>SettingsHandlers = [], SettingsDirty = False\<rparr>\<rparr>) \<and>
   map_option SettingsHandlers
     (CurrentContext
        (RegisterSettingsHandler (\<lambda>s. 0)
           (RegisterSettingsHandler (\<lambda>s. 0)
              (globals_init\<lparr>CurrentContext :=
                 Some \<lparr>SettingsHandlers = [], SettingsDirty = False\<rparr>\<rparr>)))) =
     Some [scaling_handler (\<lambda>s. 0)] \<and>
   g_settingsHandlerRegistered
     (RegisterSettingsHandler (\<lambda>s. 0)
        (globals_init\<lparr>CurrentContext :=
           Some \<lparr>SettingsHandlers = [], SettingsDirty = False\<rparr>\<rparr>)) \<and>
   RegisterSettingsHandler (\<lambda>s. 0)
     (RegisterSettingsHandler (\<lambda>s. 0)
        (globals_init\<lparr>CurrentContext :=
           Some \<lparr>SettingsHandlers = [], SettingsDirty = False\<rparr>\<rparr>)) =
     RegisterSettingsHandler (\<lambda>s. 0)
       (globals_init\<lparr>CurrentContext :=
          Some \<lparr>SettingsHandlers = [], SettingsDirty = False\<rparr>\<rparr>)"
proof -
  let ?ctx = "\<lparr>SettingsHandlers = [], SettingsDirty = False\<rparr>"
  let ?g = "globals_init\<lparr>CurrentContext := Some ?ctx\<rparr>"
  have h1: "\<not> g_settingsHandlerRegistered globals_init \<and> CurrentContext globals_init = None"
    by (simp add: globals_init_def)
  have h2: "\<not> g_settingsHandlerRegistered ?g \<and> CurrentContext ?g = Some ?ctx"
    by (simp add: globals_init_def)
  from RegisterSettingsHandler_effect [of globals_init "\<lambda>s. 0"] h1
  have r1: "RegisterSettingsHandler (\<lambda>s. 0) globals_init = globals_init"
    by blast
  from RegisterSettingsHandler_effect [of ?g "\<lambda>s. 0" ?ctx] h2
  have r2: "RegisterSettingsHandler (\<lambda>s. 0) ?g =
      ?g\<lparr>CurrentContext :=
           Some (?ctx\<lparr>SettingsHandlers := SettingsHandlers ?ctx @ [scaling_handler (\<lambda>s. 0)]\<rparr>),
         g_settingsHandlerRegistered := True\<rparr>"
    and r3: "map_option SettingsHandlers
        (CurrentContext (RegisterSettingsHandler (\<lambda>s. 0) (RegisterSettingsHandler (\<lambda>s. 0) ?g))) =
      Some (SettingsHandlers ?ctx @ [scaling_handler (\<lambda>s. 0)])"
    by blast+
  from r2 have flag: "g_settingsHandlerRegistered (RegisterSettingsHandler (\<lambda>s. 0) ?g)"
    by simp
  from r3 have one: "map_option SettingsHandlers
        (CurrentContext (RegisterSettingsHandler (\<lambda>s. 0) (RegisterSettingsHandler (\<lambda>s. 0) ?g))) =
      Some [scaling_handler (\<lambda>s. 0)]"
    by simp
  from RegisterSettingsHandler_effect
    [of "RegisterSettingsHandler (\<lambda>s. 0) ?g" "\<lambda>s. 0"] flag
  have again: "RegisterSettingsHandler (\<lambda>s. 0) (RegisterSettingsHandler (\<lambda>s. 0) ?g) =
      RegisterSettingsHandler (\<lambda>s. 0) ?g"
    by blast
  from h1 h2 r1 flag one again show ?thesis by blast
qed

subsection \<open>The open-entry callback\<close>

lemma of_char_zero_iff: "((of_char c :: nat) = 0) = (c = CHR 0x00)"
proof -
  have "(of_char (CHR 0x00) :: nat) = 0" by simp
  then show ?thesis by (metis of_char_eq_iff)
qed

lemma strcmp_zero_iff:
  "CHR 0x00 \<notin> set a \<Longrightarrow> CHR 0x00 \<notin> set b \<Longrightarrow> (strcmp a b = 0) = (a = b)"
proof (induction a b rule: strcmp.induct)
  case 1
  then show ?case by simp
next
  case (2 d ds)
  then have "d \<noteq> CHR 0x00" by auto
  then show ?case by (simp add: of_char_zero_iff)
next
  case (3 c cs)
  then have "c \<noteq> CHR 0x00" by auto
  then show ?case by (simp add: of_char_zero_iff)
next
  case (4 c cs d ds)
  then show ?case by auto
qed

text \<open>
  Claim C8. For every entry name (a C string: no NUL among its characters), the
  open-entry callback returns a non-null token exactly when the name is \<open>Data\<close>; and
  the read-line callback called with the null token leaves the global state as it is,
  whatever the line.
\<close>

theorem ReadOpen_token:
  "(CHR 0x00 \<notin> set name \<longrightarrow>
      (SettingsHandler_ReadOpen name \<noteq> nullptr) = (name = ''Data'')) \<and>
   SettingsHandler_ReadLine nullptr line g = g"
  by (simp add: SettingsHandler_ReadOpen_def SettingsHandler_ReadLine_def nullptr_def
      strcmp_zero_iff)

theorem ReadOpen_token_witness:
  "CHR 0x00 \<notin> set ''Data'' \<and> SettingsHandler_ReadOpen ''Data'' \<noteq> nullptr \<and>
   CHR 0x00 \<notin> set ''Other'' \<and> SettingsHandler_ReadOpen ''Other'' = nullptr"
  using ReadOpen_token [of "''Data''"] ReadOpen_token [of "''Other''"]
  by simp

subsection \<open>Writing and reading the persisted block\<close>

lemma scan_float_1_250: "scan_float ''1.250'' = Some (Fin (5 / 4))"
proof -
  have "scan_decimal ''1.250'' = Some (5 / 4)"
    by (simp add: scan_decimal_def scan_mantissa_def digit_val_def scan_exponent_def
        digits_value_def power_int_minus)
  then show ?thesis
    by (simp add: scan_float_def scan_sign_def tolower_def to_float_five_quarters)
qed

lemma scan_float_1_5: "scan_float ''1.5'' = Some (Fin (3 / 2))"
proof -
  have "scan_decimal ''1.5'' = Some (3 / 2)"
    by (simp add: scan_decimal_def scan_mantissa_def digit_val_def scan_exponent_def
        digits_value_def power_int_minus)
  then show ?thesis
    by (simp add: scan_float_def scan_sign_def tolower_def to_float_three_halves)
qed

text \<open>An exponent marker with no digit after it is not part of the number.\<close>

lemma scan_float_2e: "scan_float ''2e'' = Some (Fin 2)"
proof -
  have "scan_decimal ''2e'' = Some 2"
    by (simp add: scan_decimal_def scan_mantissa_def digit_val_def scan_exponent_def
        scan_sign_def tolower_def digits_value_def)
  then show ?thesis
    by (simp add: scan_float_def scan_sign_def tolower_def to_float_two)
qed

lemma scan_float_abc: "scan_float ''abc'' = None"
  by (simp add: scan_float_def scan_sign_def tolower_def scan_decimal_def scan_mantissa_def
      digit_val_def)

lemma sscanf_1_250: "sscanf_UserScale ''UserScale=1.250'' = (1, Some (Fin (5 / 4)))"
  by (simp add: sscanf_UserScale_def isspace_def scan_float_1_250)

lemma sscanf_space_1_5: "sscanf_UserScale ''UserScale= 1.5'' = (1, Some (Fin (3 / 2)))"
  by (simp add: sscanf_UserScale_def isspace_def scan_float_1_5)

lemma sscanf_abc: "sscanf_UserScale ''UserScale=abc'' = (0, None)"
  by (simp add: sscanf_UserScale_def isspace_def scan_float_abc)

lemma format_f3_five_quarters: "format_f3 (Fin (5 / 4)) = ''1.250''"
  by code_simp

lemma ReadOpen_Data: "SettingsHandler_ReadOpen ''Data'' = 1"
  by (simp add: SettingsHandler_ReadOpen_def)

text \<open>
  Claim C2. With the global user scale at 1.25, the write-all callback of the registered
  handler appends exactly the text \<open>[ImGuiScaling][Data]\<close>, newline,
  \<open>UserScale=1.250\<close>, newline, newline to the buffer; and the read-line callback, called
  with the token that the open-entry callback returns for \<open>Data\<close> and the line
  \<open>UserScale=1.250\<close>, sets the global user scale to 1.25.
\<close>

theorem persistence_round_trip:
  "SettingsHandler_WriteAll (scaling_handler h) buf (g\<lparr>g_userScale := Fin (5 / 4)\<rparr>) =
     buf @ ''[ImGuiScaling][Data]'' @ [CHR 0x0A] @ ''UserScale=1.250'' @ [CHR 0x0A] @
       [CHR 0x0A] \<and>
   SettingsHandler_ReadOpen ''Data'' \<noteq> nullptr \<and>
   GetUserScale
     (SettingsHandler_ReadLine (SettingsHandler_ReadOpen ''Data'') ''UserScale=1.250'' g) =
     Fin (5 / 4)"
  by (simp add: SettingsHandler_WriteAll_def scaling_handler_def buf_append_def
      format_f3_five_quarters ReadOpen_Data nullptr_def SettingsHandler_ReadLine_def
      sscanf_1_250 GetUserScale_def float_gt_def float_le_def)

theorem persistence_round_trip_witness:
  "SettingsHandler_WriteAll (scaling_handler (\<lambda>s. 0)) []
     (SetUserScale (Fin (5 / 4)) globals_init) =
     ''[ImGuiScaling][Data]'' @ [CHR 0x0A] @ ''UserScale=1.250'' @ [CHR 0x0A] @ [CHR 0x0A] \<and>
   GetUserScale
     (SettingsHandler_ReadLine (SettingsHandler_ReadOpen ''Data'') ''UserScale=1.250''
        globals_init) = Fin (5 / 4)"
  using persistence_round_trip [of "\<lambda>s. 0" "[]" globals_init]
  by (simp add: SetUserScale_def globals_init_def float_gt_def)

subsection \<open>The lines that the read-line callback accepts\<close>

lemma match_literal_Inr: "(match_literal p line = Inr rest) = (line = p @ rest)"
  by (induction p line rule: match_literal.induct) auto

lemma space_cases:
  "isspace c \<Longrightarrow>
   c = CHR '' '' \<or> c = CHR 0x09 \<or> c = CHR 0x0A \<or> c = CHR 0x0B \<or> c = CHR 0x0C \<or> c = CHR 0x0D"
  by (simp add: isspace_def)

lemma scan_decimal_space: "isspace c \<Longrightarrow> scan_decimal (c # cs) = None"
  by (drule space_cases) (auto simp add: scan_decimal_def scan_mantissa_def digit_val_def)

lemma scan_sign_space: "isspace c \<Longrightarrow> scan_sign (c # cs) = (False, c # cs)"
  by (drule space_cases) (auto simp add: scan_sign_def)

lemma tolower_space: "isspace c \<Longrightarrow> tolower c = c"
  by (drule space_cases) (auto simp add: tolower_def)

lemma space_not_letter:
  "isspace c \<Longrightarrow> c \<noteq> CHR ''i'' \<and> c \<noteq> CHR ''n'' \<and> c \<noteq> CHR ''0''"
  by (drule space_cases) auto

text \<open>A number does not start with white space, and is not empty.\<close>

lemma scan_float_space: "isspace c \<Longrightarrow> scan_float (c # cs) = None"
  by (simp add: scan_float_def scan_sign_space tolower_space space_not_letter
      scan_decimal_space)

lemma scan_float_Nil: "scan_float [] = None"
  by (simp add: scan_float_def scan_sign_def scan_decimal_def scan_mantissa_def)

lemma scan_float_Some_head:
  "scan_float num = Some v \<Longrightarrow> \<exists>c cs. num = c # cs \<and> \<not> isspace c"
  by (cases num) (auto simp add: scan_float_Nil scan_float_space)

lemma dropWhile_space_number:
  assumes "\<forall>c\<in>set ws. isspace c" and "scan_float num = Some v"
  shows "dropWhile isspace (ws @ num) = num"
proof -
  from assms(2) obtain c cs where num: "num = c # cs" and c: "\<not> isspace c"
    using scan_float_Some_head by blast
  from assms(1) have "dropWhile isspace (ws @ num) = dropWhile isspace num"
    by (simp add: dropWhile_append)
  with num c show ?thesis by simp
qed

lemma sscanf_UserScale_cases:
  "sscanf_UserScale line =
     (case match_literal ''UserScale='' line of
        Inl n \<Rightarrow> (n, None)
      | Inr rest \<Rightarrow>
          (if dropWhile isspace rest = [] then (- 1, None)
           else (case scan_float (dropWhile isspace rest) of
                   None \<Rightarrow> (0, None)
                 | Some v \<Rightarrow> (1, Some v))))"
  unfolding sscanf_UserScale_def
  by (cases "match_literal ''UserScale='' line")
     (simp_all only: sum.case list.case split: list.split, simp_all)

lemma sscanf_UserScale_Some: "sscanf_UserScale line = (n, Some v) \<Longrightarrow> n = 1"
  by (simp add: sscanf_UserScale_cases split: sum.splits if_splits option.splits)

text \<open>\<open>sscanf\<close> returns 1 exactly for the lines made of the text \<open>UserScale=\<close>, any
  white space, and a number; the value stored is that of the number.\<close>

lemma sscanf_UserScale_accepts:
  "(sscanf_UserScale line = (1, Some v)) =
   (\<exists>ws num. line = ''UserScale='' @ ws @ num \<and> (\<forall>c\<in>set ws. isspace c) \<and>
      scan_float num = Some v)"
proof
  assume scan: "sscanf_UserScale line = (1, Some v)"
  then obtain rest where rest: "match_literal ''UserScale='' line = Inr rest"
    and num: "scan_float (dropWhile isspace rest) = Some v"
    by (simp add: sscanf_UserScale_cases split: sum.splits if_splits option.splits)
  from rest have "line = ''UserScale='' @ takeWhile isspace rest @ dropWhile isspace rest"
    by (simp only: match_literal_Inr takeWhile_dropWhile_id)
  moreover have "\<forall>c\<in>set (takeWhile isspace rest). isspace c"
    by (auto dest: set_takeWhileD)
  ultimately show "\<exists>ws num. line = ''UserScale='' @ ws @ num \<and>
      (\<forall>c\<in>set ws. isspace c) \<and> scan_float num = Some v"
    using num by blast
next
  assume "\<exists>ws num. line = ''UserScale='' @ ws @ num \<and> (\<forall>c\<in>set ws. isspace c) \<and>
      scan_float num = Some v"
  then obtain ws num where line: "line = ''UserScale='' @ ws @ num"
    and ws: "\<forall>c\<in>set ws. isspace c" and num: "scan_float num = Some v"
    by blast
  from line have lit: "match_literal ''UserScale='' line = Inr (ws @ num)"
    by (simp only: match_literal_Inr)
  from ws num have drop: "dropWhile isspace (ws @ num) = num"
    by (rule dropWhile_space_number)
  from num have "num \<noteq> []"
    using scan_float_Some_head by blast
  with lit drop num show "sscanf_UserScale line = (1, Some v)"
    by (simp add: sscanf_UserScale_cases)
qed

lemma ReadLine_by_sscanf:
  "entry \<noteq> nullptr \<Longrightarrow>
   SettingsHandler_ReadLine entry line g =
     (case snd (sscanf_UserScale line) of
        None \<Rightarrow> g
      | Some v \<Rightarrow>
          if float_gt v (Fin 0) \<and> float_le v (Fin 10) then g\<lparr>g_userScale := v\<rparr> else g)"
proof (cases "sscanf_UserScale line")
  case (Pair n r)
  assume entry: "entry \<noteq> nullptr"
  show ?thesis
  proof (cases r)
    case None
    with Pair entry show ?thesis by (simp add: SettingsHandler_ReadLine_def)
  next
    case (Some v)
    with Pair have "n = 1" by (simp add: sscanf_UserScale_Some)
    with Pair Some entry show ?thesis by (simp add: SettingsHandler_ReadLine_def)
  qed
qed

text \<open>
  Claim C3, as amended. For every line given to the read-line callback with a valid
  entry token: when the line is the exact text \<open>UserScale=\<close>, followed by any amount of
  white space (none included), followed by text that starts with a floating-point
  number (what comes after the number is not looked at, and an exponent marker with no
  digit after it comes after the number), the global user scale is overwritten with the
  parsed value if that value is greater than 0 and at most 10, and is left as it is
  otherwise; every line that is not of this form leaves the global state as it is. No
  error is signalled: the callback always returns a state.
\<close>

theorem ReadLine_accepts:
  "entry \<noteq> nullptr \<Longrightarrow>
   (\<forall>ws num v.
      line = ''UserScale='' @ ws @ num \<and> (\<forall>c\<in>set ws. isspace c) \<and>
      scan_float num = Some v \<longrightarrow>
      SettingsHandler_ReadLine entry line g =
        (if float_gt v (Fin 0) \<and> float_le v (Fin 10) then g\<lparr>g_userScale := v\<rparr> else g)) \<and>
   ((\<nexists>ws num v.
      line = ''UserScale='' @ ws @ num \<and> (\<forall>c\<in>set ws. isspace c) \<and>
      scan_float num = Some v) \<longrightarrow>
      SettingsHandler_ReadLine entry line g = g)"
proof (intro conjI allI impI)
  fix ws num v
  assume entry: "entry \<noteq> nullptr"
    and form: "line = ''UserScale='' @ ws @ num \<and> (\<forall>c\<in>set ws. isspace c) \<and>
      scan_float num = Some v"
  then have "sscanf_UserScale line = (1, Some v)"
    by (simp only: sscanf_UserScale_accepts) blast
  with entry show "SettingsHandler_ReadLine entry line g =
      (if float_gt v (Fin 0) \<and> float_le v (Fin 10) then g\<lparr>g_userScale := v\<rparr> else g)"
    by (simp add: ReadLine_by_sscanf)
next
  assume entry: "entry \<noteq> nullptr"
    and none: "\<nexists>ws num v. line = ''UserScale='' @ ws @ num \<and>
      (\<forall>c\<in>set ws. isspace c) \<and> scan_float num = Some v"
  have "snd (sscanf_UserScale line) = None"
  proof (cases "sscanf_UserScale line")
    case (Pair n r)
    show ?thesis
    proof (cases r)
      case None
      with Pair show ?thesis by simp
    next
      case (Some v)
      with Pair have "sscanf_UserScale line = (1, Some v)"
        by (auto dest: sscanf_UserScale_Some)
      with none show ?thesis
        by (simp only: sscanf_UserScale_accepts) blast
    qed
  qed
  with entry show "SettingsHandler_ReadLine entry line g = g"
    by (simp add: ReadLine_by_sscanf)
qed

theorem ReadLine_accepts_witness:
  "SettingsHandler_ReadOpen ''Data'' \<noteq> nullptr \<and>
   isspace (CHR '' '') \<and>
   scan_float ''1.5'' = Some (Fin (3 / 2)) \<and>
   float_gt (Fin (3 / 2)) (Fin 0) \<and> float_le (Fin (3 / 2)) (Fin 10) \<and>
   SettingsHandler_ReadLine (SettingsHandler_ReadOpen ''Data'') ''UserScale= 1.5'' globals_init =
     globals_init\<lparr>g_userScale := Fin (3 / 2)\<rparr> \<and>
   SettingsHandler_ReadLine (SettingsHandler_ReadOpen ''Data'') ''UserScale=abc'' globals_init =
     globals_init \<and>
   scan_float ''2e'' = Some (Fin 2) \<and>
   SettingsHandler_ReadLine (SettingsHandler_ReadOpen ''Data'') ''UserScale=2e'' globals_init =
     globals_init\<lparr>g_userScale := Fin 2\<rparr>"
proof -
  have entry: "SettingsHandler_ReadOpen ''Data'' \<noteq> nullptr"
    by (simp add: ReadOpen_Data nullptr_def)
  have sp: "isspace (CHR '' '')"
    by (simp add: isspace_def)
  have range: "float_gt (Fin (3 / 2)) (Fin 0) \<and> float_le (Fin (3 / 2)) (Fin 10)"
    by (simp add: float_gt_def float_le_def)
  have form: "''UserScale= 1.5'' = ''UserScale='' @ '' '' @ ''1.5'' \<and>
      (\<forall>c\<in>set '' ''. isspace c) \<and> scan_float ''1.5'' = Some (Fin (3 / 2))"
    using sp by (simp add: scan_float_1_5)
  from ReadLine_accepts [OF entry, THEN conjunct1, rule_format, OF form]
  have "SettingsHandler_ReadLine (SettingsHandler_ReadOpen ''Data'') ''UserScale= 1.5''
       globals_init =
     (if float_gt (Fin (3 / 2)) (Fin 0) \<and> float_le (Fin (3 / 2)) (Fin 10)
      then globals_init\<lparr>g_userScale := Fin (3 / 2)\<rparr> else globals_init)" .
  with range have accepted:
    "SettingsHandler_ReadLine (SettingsHandler_ReadOpen ''Data'') ''UserScale= 1.5''
       globals_init = globals_init\<lparr>g_userScale := Fin (3 / 2)\<rparr>"
    by (simp only: simp_thms if_True)
  have "\<nexists>ws num v. ''UserScale=abc'' = ''UserScale='' @ ws @ num \<and>
      (\<forall>c\<in>set ws. isspace c) \<and> scan_float num = Some v"
  proof
    assume "\<exists>ws num v. ''UserScale=abc'' = ''UserScale='' @ ws @ num \<and>
      (\<forall>c\<in>set ws. isspace c) \<and> scan_float num = Some v"
    then obtain v where "\<exists>ws num. ''UserScale=abc'' = ''UserScale='' @ ws @ num \<and>
      (\<forall>c\<in>set ws. isspace c) \<and> scan_float num = Some v"
      by blast
    then have "sscanf_UserScale ''UserScale=abc'' = (1, Some v)"
      by (simp only: sscanf_UserScale_accepts)
    then show False by (simp add: sscanf_abc)
  qed
  with ReadLine_accepts [OF entry, of "''UserScale=abc''" globals_init]
  have rejected:
    "SettingsHandler_ReadLine (SettingsHandler_ReadOpen ''Data'') ''UserScale=abc''
       globals_init = globals_init"
    by blast
  have form2: "''UserScale=2e'' = ''UserScale='' @ [] @ ''2e'' \<and>
      (\<forall>c\<in>set []. isspace c) \<and> scan_float ''2e'' = Some (Fin 2)"
    by (simp add: scan_float_2e)
  have range2: "float_gt (Fin 2) (Fin 0) \<and> float_le (Fin 2) (Fin 10)"
    by (simp add: float_gt_def float_le_def)
  from ReadLine_accepts [OF entry, THEN conjunct1, rule_format, OF form2]
  have "SettingsHandler_ReadLine (SettingsHandler_ReadOpen ''Data'') ''UserScale=2e''
       globals_init =
     (if float_gt (Fin 2) (Fin 0) \<and> float_le (Fin 2) (Fin 10)
      then globals_init\<lparr>g_userScale := Fin 2\<rparr> else globals_init)" .
  with range2 have dangling:
    "SettingsHandler_ReadLine (SettingsHandler_ReadOpen ''Data'') ''UserScale=2e''
       globals_init = globals_init\<lparr>g_userScale := Fin 2\<rparr>"
    by (simp only: simp_thms if_True)
  from entry sp range accepted rejected dangling show ?thesis
    by (simp add: scan_float_1_5 scan_float_2e)
qed

text \<open>
  Claim C3 as the specification states it (the number follows \<open>UserScale=\<close>
  immediately) fails on a line with white space after the \<open>=\<close> sign: the conversion
  \<open>%f\<close> of \<open>sscanf\<close> skips white space before the number, so the line
  \<open>UserScale= 1.5\<close>, which is not of the stated form, sets the global user scale to 1.5.
\<close>

theorem ReadLine_counterexample:
  "SettingsHandler_ReadLine (SettingsHandler_ReadOpen ''Data'') ''UserScale= 1.5'' globals_init
     \<noteq> spec_ReadLine (SettingsHandler_ReadOpen ''Data'') ''UserScale= 1.5'' globals_init"
proof -
  have "spec_line_value ''UserScale= 1.5'' = None"
    by (simp add: spec_line_value_def scan_float_space isspace_def)
  then have "spec_ReadLine (SettingsHandler_ReadOpen ''Data'') ''UserScale= 1.5'' globals_init
      = globals_init"
    by (simp add: spec_ReadLine_def)
  moreover have "SettingsHandler_ReadLine (SettingsHandler_ReadOpen ''Data'')
      ''UserScale= 1.5'' globals_init = globals_init\<lparr>g_userScale := Fin (3 / 2)\<rparr>"
    by (simp add: SettingsHandler_ReadLine_def ReadOpen_Data nullptr_def sscanf_space_1_5
        float_gt_def float_le_def)
  ultimately show ?thesis
    by (simp add: globals_init_def)
qed

end
